theory Spec2Isabelle
  imports Complex_Main "HOL-Library.Multiset"
begin

section \<open>Errors\<close>

text \<open>
  Every \<^verbatim>\<open>throw\<close> of the source is a value of this type. The constructor names follow
  the taxonomy of the specification (section 7); the messages are the ones the source
  passes to \<^verbatim>\<open>new Error\<close>. \<open>TypeError\<close> is what JavaScript raises when \<^verbatim>\<open>.map\<close> is
  called on a value that is not an array; \<open>InnerFailure\<close> is a failure of the inner
  pipeline component.
\<close>

datatype error =
    InvalidArgument
  | ConfigConflict string
  | RetryExhausted string
  | MissingInput string
  | ConfigResolution
  | TypeError
  | InnerFailure string

section \<open>Chunker\<close>

text \<open>
  Modelled from the spec: \<^verbatim>\<open>chunkArray\<close> is imported from \<^verbatim>\<open>../util\<close>, which is not among
  the sources. Section 4.1 of the specification gives its contract: the input is cut
  into consecutive sub-sequences of the chunk size, the last one possibly shorter, and
  a chunk size that is not positive is rejected with \<open>InvalidArgument\<close>.
\<close>

function chunks :: "nat \<Rightarrow> 'a list \<Rightarrow> 'a list list" where
  "chunks k xs = (if k = 0 \<or> xs = [] then [] else take k xs # chunks k (drop k xs))"
  by pat_completeness auto
termination
  by (relation "measure (\<lambda>(k, xs). length xs)") auto

declare chunks.simps [simp del]

definition chunkArray :: "'a list \<Rightarrow> int \<Rightarrow> error + 'a list list" where
  "chunkArray arr chunkSize =
     (if chunkSize \<le> 0 then Inl InvalidArgument else Inr (chunks (nat chunkSize) arr))"

section \<open>The completion client (class \<^verbatim>\<open>OpenAI\<close>)\<close>

subsection \<open>Data\<close>

text \<open>
  A request (\<^verbatim>\<open>CreateCompletionRequest & Kwargs\<close>) is a JavaScript object: a map from
  property names to values. A property whose value is \<^verbatim>\<open>undefined\<close> is a key that the
  map does not bind. JavaScript numbers that carry sampling parameters are rationals;
  counts and sizes are integers.
\<close>

datatype jsval =
    JNum rat
  | JStr string
  | JStrs "string list"
  | JBias "(string \<times> rat) list"

type_synonym request = "string \<rightharpoonup> jsval"

text \<open>
  The fields of the class. \<open>cfg_n\<close> is the field \<^verbatim>\<open>n\<close> and \<open>cfg_stop\<close> the field
  \<^verbatim>\<open>stop\<close> (an optional list: \<open>None\<close> is \<^verbatim>\<open>undefined\<close>).
\<close>

record OpenAI =
  temperature :: rat
  maxTokens :: int
  topP :: rat
  frequencyPenalty :: rat
  presencePenalty :: rat
  cfg_n :: int
  bestOf :: int
  logitBias :: "(string \<times> rat) list option"
  modelName :: string
  modelKwargs :: request
  batchSize :: int
  maxRetries :: int
  cfg_stop :: "string list option"

text \<open>The field initialisers of the class: the engine built by \<^verbatim>\<open>new OpenAI()\<close>.\<close>

definition OpenAI_default :: OpenAI where
  "OpenAI_default =
     \<lparr>temperature = 7 / 10, maxTokens = 256, topP = 1, frequencyPenalty = 0,
      presencePenalty = 0, cfg_n = 1, bestOf = 1, logitBias = None,
      modelName = ''text-davinci-003'', modelKwargs = Map.empty, batchSize = 20,
      maxRetries = 6, cfg_stop = None\<rparr>"

text \<open>
  One element of \<^verbatim>\<open>data.choices\<close> (\<^verbatim>\<open>CreateCompletionResponseChoicesInner\<close>), the
  usage block of a response, and the response itself (\<^verbatim>\<open>data\<close>).
\<close>

record choice =
  choice_text :: "string option"
  choice_index :: "int option"
  logprobs :: "string option"
  finish_reason :: "string option"

record usage =
  completion_tokens :: "int option"
  prompt_tokens :: "int option"
  total_tokens :: "int option"

record response =
  choices :: "choice list"
  resp_usage :: "usage option"

record TokenUsage =
  completionTokens :: "int option"
  promptTokens :: "int option"
  totalTokens :: "int option"

record generation =
  gen_text :: string
  finishReason :: "string option"
  gen_logprobs :: "string option"

record LLMResult =
  generations :: "generation list list"
  tokenUsage :: TokenUsage

text \<open>
  The remote transport (\<^verbatim>\<open>this.client.createCompletion\<close>) is a collaborator. Its answer
  may depend on the request and on how many invocations were made before this one
  (so that a transport may fail twice and then succeed); it either fails with a
  transport error or returns a response. The number of invocations made so far is
  the only state the model threads through.
\<close>

type_synonym transport = "nat \<Rightarrow> request \<Rightarrow> string + response"

subsection \<open>Operations\<close>

definition invocationParams :: "OpenAI \<Rightarrow> request" where
  "invocationParams this =
     (Map.empty
        (''model'' \<mapsto> JStr (modelName this),
         ''temperature'' \<mapsto> JNum (temperature this),
         ''max_tokens'' \<mapsto> JNum (of_int (maxTokens this)),
         ''top_p'' \<mapsto> JNum (topP this),
         ''frequency_penalty'' \<mapsto> JNum (frequencyPenalty this),
         ''presence_penalty'' \<mapsto> JNum (presencePenalty this),
         ''n'' \<mapsto> JNum (of_int (cfg_n this)),
         ''best_of'' \<mapsto> JNum (of_int (bestOf this)),
         ''logit_bias'' := map_option JBias (logitBias this),
         ''stop'' := map_option JStrs (cfg_stop this)))
     ++ modelKwargs this"

text \<open>
  Modelled from the spec: \<^verbatim>\<open>backOff\<close> comes from the package \<^verbatim>\<open>exponential-backoff\<close>,
  which is not among the sources. Section 4.2 of the specification: the thunk is
  invoked; on failure it is invoked again until the attempt count is exhausted; the
  first success is returned; when the budget is exhausted the failure is
  \<open>RetryExhausted\<close> around the last underlying failure. The delays between attempts
  are not modelled. \<open>attempts thunk k c\<close> makes one attempt with \<open>k\<close> more allowed
  after it, \<open>c\<close> invocations having been made before; it returns the outcome and the
  number of invocations made.
\<close>

fun attempts :: "(nat \<Rightarrow> string + 'a) \<Rightarrow> nat \<Rightarrow> nat \<Rightarrow> (error + 'a) \<times> nat" where
  "attempts thunk 0 c =
     (case thunk c of
        Inl e \<Rightarrow> (Inl (RetryExhausted e), Suc c)
      | Inr r \<Rightarrow> (Inr r, Suc c))"
| "attempts thunk (Suc k) c =
     (case thunk c of
        Inl e \<Rightarrow> attempts thunk k (Suc c)
      | Inr r \<Rightarrow> (Inr r, Suc c))"

definition backOff :: "(nat \<Rightarrow> string + 'a) \<Rightarrow> int \<Rightarrow> nat \<Rightarrow> (error + 'a) \<times> nat" where
  "backOff thunk numOfAttempts c = attempts thunk (nat numOfAttempts - 1) c"

definition completionWithRetry ::
    "transport \<Rightarrow> OpenAI \<Rightarrow> request \<Rightarrow> nat \<Rightarrow> (error + response) \<times> nat" where
  "completionWithRetry client this req c =
     backOff (\<lambda>i. client i req) (maxRetries this) c"

text \<open>
  Lines 319 to 330: \<^verbatim>\<open>if (v) { acc = (acc ?? 0) + v; }\<close>, once for each counter. The
  test is JavaScript truthiness: an absent counter and the number 0 both skip the
  update.
\<close>

definition add_counter :: "int option \<Rightarrow> int option \<Rightarrow> int option" where
  "add_counter acc v =
     (case v of
        None \<Rightarrow> acc
      | Some x \<Rightarrow> if x = 0 then acc
                  else Some ((case acc of None \<Rightarrow> 0 | Some a \<Rightarrow> a) + x))"

text \<open>Lines 313 to 331, with \<^verbatim>\<open>data.usage ?? {}\<close> for a response without a usage block.\<close>

definition addUsage :: "TokenUsage \<Rightarrow> usage option \<Rightarrow> TokenUsage" where
  "addUsage tu u =
     (let completionTokens' = (case u of None \<Rightarrow> None | Some x \<Rightarrow> completion_tokens x);
          promptTokens' = (case u of None \<Rightarrow> None | Some x \<Rightarrow> prompt_tokens x);
          totalTokens' = (case u of None \<Rightarrow> None | Some x \<Rightarrow> total_tokens x)
      in \<lparr>completionTokens = add_counter (completionTokens tu) completionTokens',
          promptTokens = add_counter (promptTokens tu) promptTokens',
          totalTokens = add_counter (totalTokens tu) totalTokens'\<rparr>)"

text \<open>
  The loop of lines 307 to 331 over the batches that remain, with the accumulators
  \<^verbatim>\<open>choices\<close> and \<^verbatim>\<open>tokenUsage\<close>. A failed batch ends the loop with its error.
\<close>

fun generate_loop ::
    "transport \<Rightarrow> OpenAI \<Rightarrow> request \<Rightarrow> string list list \<Rightarrow> choice list \<Rightarrow> TokenUsage \<Rightarrow> nat
       \<Rightarrow> (error + choice list \<times> TokenUsage) \<times> nat" where
  "generate_loop client this params [] chs tu c = (Inr (chs, tu), c)"
| "generate_loop client this params (b # bs) chs tu c =
     (case completionWithRetry client this (params(''prompt'' \<mapsto> JStrs b)) c of
        (Inl e, c') \<Rightarrow> (Inl e, c')
      | (Inr data, c') \<Rightarrow>
          generate_loop client this params bs (chs @ choices data)
            (addUsage tu (resp_usage data)) c')"

text \<open>Lines 334 to 340: one choice becomes one generation.\<close>

definition toGeneration :: "choice \<Rightarrow> generation" where
  "toGeneration ch =
     \<lparr>gen_text = (case choice_text ch of None \<Rightarrow> [] | Some t \<Rightarrow> t),
      finishReason = finish_reason ch,
      gen_logprobs = logprobs ch\<rparr>"

text \<open>
  Lines 304 and 305: the request parameters of a call, \<^verbatim>\<open>params.stop = stop ?? params.stop\<close>.
\<close>

definition call_params :: "OpenAI \<Rightarrow> string list option \<Rightarrow> request" where
  "call_params this stop =
     (let params = invocationParams this
      in params(''stop'' :=
           (case stop of Some s \<Rightarrow> Some (JStrs s) | None \<Rightarrow> params ''stop'')))"

text \<open>
  \<^verbatim>\<open>_generate\<close> (lines 295 to 346). The result is the outcome and the number of
  transport invocations made when the call ends. The prompts are chunked first (line
  296), then the two stop lists are tested for being defined (line 300: an array,
  empty or not, is truthy).
\<close>

definition generate ::
    "transport \<Rightarrow> OpenAI \<Rightarrow> string list \<Rightarrow> string list option \<Rightarrow> nat
       \<Rightarrow> (error + LLMResult) \<times> nat" where
  "generate client this prompts stop c =
     (case chunkArray prompts (batchSize this) of
        Inl e \<Rightarrow> (Inl e, c)
      | Inr subPrompts \<Rightarrow>
          if cfg_stop this \<noteq> None \<and> stop \<noteq> None
          then (Inl (ConfigConflict ''Stop found in input and default params''), c)
          else
            let params = call_params this stop
            in case generate_loop client this params subPrompts []
                      \<lparr>completionTokens = None, promptTokens = None, totalTokens = None\<rparr> c of
                 (Inl e, c') \<Rightarrow> (Inl e, c')
               | (Inr (chs, tu), c') \<Rightarrow>
                   (case chunkArray chs (cfg_n this) of
                      Inl e \<Rightarrow> (Inl e, c')
                    | Inr groups \<Rightarrow>
                        (Inr \<lparr>generations = map (map toGeneration) groups, tokenUsage = tu\<rparr>,
                         c')))"

subsection \<open>Notions the claims use\<close>

text \<open>
  A response holds the replicas of each prompt together and in prompt order: the first
  \<open>n\<close> choices are completions of the first prompt of the batch (\<open>R p ch\<close> says that
  \<open>ch\<close> is a completion of \<open>p\<close>), the next \<open>n\<close> of the second, and nothing is left over.
\<close>

fun replicas_contiguous ::
    "(string \<Rightarrow> choice \<Rightarrow> bool) \<Rightarrow> nat \<Rightarrow> string list \<Rightarrow> choice list \<Rightarrow> bool" where
  "replicas_contiguous R n [] chs = (chs = [])"
| "replicas_contiguous R n (p # ps) chs =
     (n \<le> length chs \<and> list_all (R p) (take n chs) \<and>
      replicas_contiguous R n ps (drop n chs))"

text \<open>
  The responses the loop obtains, batch by batch, up to the first batch that fails:
  the same recursion as \<open>generate_loop\<close>, keeping the responses.
\<close>

fun batch_responses ::
    "transport \<Rightarrow> OpenAI \<Rightarrow> request \<Rightarrow> string list list \<Rightarrow> nat \<Rightarrow> response list" where
  "batch_responses client this params [] c = []"
| "batch_responses client this params (b # bs) c =
     (case completionWithRetry client this (params(''prompt'' \<mapsto> JStrs b)) c of
        (Inl e, c') \<Rightarrow> []
      | (Inr data, c') \<Rightarrow> data # batch_responses client this params bs c')"

text \<open>The responses of a whole call to \<open>generate\<close>.\<close>

definition responses_of ::
    "transport \<Rightarrow> OpenAI \<Rightarrow> string list \<Rightarrow> string list option \<Rightarrow> nat \<Rightarrow> response list" where
  "responses_of client this prompts stop c =
     batch_responses client this (call_params this stop)
       (chunks (nat (batchSize this)) prompts) c"

text \<open>
  What one response reports for a counter (absent counts as 0), and the sum of a
  counter over a list of responses.
\<close>

definition reported :: "(usage \<Rightarrow> int option) \<Rightarrow> response \<Rightarrow> int" where
  "reported f r =
     (case resp_usage r of
        None \<Rightarrow> 0
      | Some u \<Rightarrow> (case f u of None \<Rightarrow> 0 | Some v \<Rightarrow> v))"

definition counter_sum :: "(usage \<Rightarrow> int option) \<Rightarrow> response list \<Rightarrow> int" where
  "counter_sum f rs = sum_list (map (reported f) rs)"

definition or_zero :: "int option \<Rightarrow> int" where
  "or_zero v = (case v of None \<Rightarrow> 0 | Some x \<Rightarrow> x)"

definition accumulate :: "response list \<Rightarrow> TokenUsage" where
  "accumulate rs =
     foldl addUsage \<lparr>completionTokens = None, promptTokens = None, totalTokens = None\<rparr>
       (map resp_usage rs)"

text \<open>
  A counter of a usage block that may be missing (\<^verbatim>\<open>data.usage ?? {}\<close>), and the total
  of a counter over a list of responses: absent when every response reports it as
  absent or 0, the sum otherwise.
\<close>

definition usage_field :: "(usage \<Rightarrow> int option) \<Rightarrow> usage option \<Rightarrow> int option" where
  "usage_field f u = (case u of None \<Rightarrow> None | Some x \<Rightarrow> f x)"

definition total_of :: "(usage \<Rightarrow> int option) \<Rightarrow> response list \<Rightarrow> int option" where
  "total_of f rs =
     (if list_all (\<lambda>r. reported f r = 0) rs then None else Some (counter_sum f rs))"

subsection \<open>Concrete collaborators for the examples\<close>

text \<open>
  A transport that answers every prompt of the batch twice with the prompt itself and
  reports no completion tokens, and one that is down whenever the batch is the single
  prompt \<open>boom\<close>. \<open>answers p ch\<close>: the choice \<open>ch\<close> is a completion of the prompt \<open>p\<close>.
\<close>

definition mk_choice :: "string \<Rightarrow> choice" where
  "mk_choice p =
     \<lparr>choice_text = Some p, choice_index = None, logprobs = None,
      finish_reason = Some ''stop''\<rparr>"

definition answers :: "string \<Rightarrow> choice \<Rightarrow> bool" where
  "answers p ch = (choice_text ch = Some p)"

fun twice_each :: "string list \<Rightarrow> choice list" where
  "twice_each [] = []"
| "twice_each (p # ps) = mk_choice p # mk_choice p # twice_each ps"

definition echo_client :: transport where
  "echo_client i req =
     (case req ''prompt'' of
        Some (JStrs ps) \<Rightarrow>
          Inr \<lparr>choices = twice_each ps,
               resp_usage = Some \<lparr>completion_tokens = Some 0,
                                   prompt_tokens = Some (int (length ps)),
                                   total_tokens = Some (int (length ps))\<rparr>\<rparr>
      | _ \<Rightarrow> Inl ''bad request'')"

definition flaky_client :: transport where
  "flaky_client i req =
     (if req ''prompt'' = Some (JStrs [''boom'']) then Inl ''unavailable''
      else echo_client i req)"

text \<open>
  A transport that reads the number of completions from the request: it answers every
  prompt of the batch as many times as the property \<^verbatim>\<open>n\<close> of the request says.
\<close>

definition honest_client :: transport where
  "honest_client i req =
     (case (req ''prompt'', req ''n'') of
        (Some (JStrs ps), Some (JNum k)) \<Rightarrow>
          Inr \<lparr>choices = concat (map (\<lambda>p. replicate (nat \<lfloor>k\<rfloor>) (mk_choice p)) ps),
               resp_usage = None\<rparr>
      | _ \<Rightarrow> Inl ''bad request'')"

section \<open>The document stuffing stage (class \<^verbatim>\<open>StuffDocumentsChain\<close>)\<close>

subsection \<open>Data\<close>

record document =
  pageContent :: string
  metadata :: "(string \<times> string) list"

text \<open>
  \<^verbatim>\<open>ChainValues\<close> is a plain JavaScript object with values of any kind: a map from the
  keys of its own properties to their values, of which the stage reads document lists
  only. \<open>Inherited k\<close> is the value of the property \<open>k\<close> that every plain object
  inherits from \<^verbatim>\<open>Object.prototype\<close>: a function, or for \<^verbatim>\<open>__proto__\<close> the prototype
  itself; it is not an array.
\<close>

datatype chain_value =
    Docs "document list"
  | Str string
  | Num int
  | Inherited string

type_synonym ChainValues = "string \<rightharpoonup> chain_value"

text \<open>The names of the properties of \<^verbatim>\<open>Object.prototype\<close>.\<close>

definition Object_prototype :: "string list" where
  "Object_prototype =
     [''constructor'', ''__defineGetter__'', ''__defineSetter__'', ''hasOwnProperty'',
      ''__lookupGetter__'', ''__lookupSetter__'', ''isPrototypeOf'',
      ''propertyIsEnumerable'', ''toString'', ''valueOf'', ''__proto__'',
      ''toLocaleString'']"

text \<open>
  The operator \<^verbatim>\<open>k in values\<close> and the read \<^verbatim>\<open>values[k]\<close>: both look at the object's own
  properties and then at the ones it inherits. \<open>None\<close> is \<^verbatim>\<open>undefined\<close>.
\<close>

definition has_property :: "ChainValues \<Rightarrow> string \<Rightarrow> bool" where
  "has_property vals k = (k \<in> dom vals \<or> k \<in> set Object_prototype)"

definition get_property :: "ChainValues \<Rightarrow> string \<Rightarrow> chain_value option" where
  "get_property vals k =
     (case vals k of
        Some v \<Rightarrow> Some v
      | None \<Rightarrow> if k \<in> set Object_prototype then Some (Inherited k) else None)"

text \<open>
  Modelled from the spec: \<^verbatim>\<open>LLMChain\<close> is imported from \<^verbatim>\<open>./index\<close>, which is not among the
  sources. Section 6 of the specification: the inner pipeline component is any
  component with \<^verbatim>\<open>run\<close>, \<^verbatim>\<open>serialize\<close> and \<^verbatim>\<open>deserialize\<close>, whose serialized form
  carries a type tag and its reconstruction data. The component is its type tag and
  its configuration; its three operations are parameters of the operations of the
  stage that use them.
\<close>

record 'c LLMChain =
  chain_type :: string
  chain_config :: 'c

record 'c StuffDocumentsChain =
  llmChain :: "'c LLMChain"
  inputKey :: string
  outputKey :: string
  documentVariableName :: string

text \<open>
  \<^verbatim>\<open>SerializedStuffDocumentsChain\<close>: \<open>type_tag\<close> is the property \<^verbatim>\<open>_type\<close>; \<open>'s\<close> is
  \<^verbatim>\<open>SerializedLLMChain\<close>.
\<close>

record 's SerializedStuffDocumentsChain =
  type_tag :: string
  llm_chain :: "'s option"
  llm_chain_path :: "string option"

subsection \<open>Operations\<close>

text \<open>
  The constructor (lines 39 to 51): a key that the caller leaves out keeps the field
  initialiser of lines 33 to 37.
\<close>

definition new_StuffDocumentsChain ::
    "'c LLMChain \<Rightarrow> string option \<Rightarrow> string option \<Rightarrow> string option \<Rightarrow> 'c StuffDocumentsChain" where
  "new_StuffDocumentsChain f_llmChain f_inputKey f_outputKey f_documentVariableName =
     \<lparr>llmChain = f_llmChain,
      inputKey = (case f_inputKey of None \<Rightarrow> ''input_documents'' | Some k \<Rightarrow> k),
      outputKey = (case f_outputKey of None \<Rightarrow> ''output_text'' | Some k \<Rightarrow> k),
      documentVariableName =
        (case f_documentVariableName of None \<Rightarrow> ''context'' | Some k \<Rightarrow> k)\<rparr>"

text \<open>\<^verbatim>\<open>Array.prototype.join\<close> on a list of strings.\<close>

fun join :: "string \<Rightarrow> string list \<Rightarrow> string" where
  "join sep [] = []"
| "join sep [x] = x"
| "join sep (x # y # ys) = x @ sep @ join sep (y # ys)"

text \<open>The separator of line 59: two line feeds.\<close>

definition separator :: string where
  "separator = [CHR 0x0A, CHR 0x0A]"

text \<open>
  \<^verbatim>\<open>_call\<close> (lines 53 to 65). \<open>inner\<close> is \<^verbatim>\<open>llmChain.call\<close>; \<open>seen\<close> is the list of the
  maps the inner component has been called with so far, and the call returns it
  extended by what this call passes on. The test of line 54 is the operator \<^verbatim>\<open>in\<close>;
  the rest pattern of line 57 copies the own properties other than the input key. A
  value at the input key that is not a list of documents has no \<^verbatim>\<open>map\<close> to call.
\<close>

definition StuffDocumentsChain_call ::
    "('c LLMChain \<Rightarrow> ChainValues \<Rightarrow> error + ChainValues) \<Rightarrow> 'c StuffDocumentsChain
       \<Rightarrow> ChainValues \<Rightarrow> ChainValues list \<Rightarrow> (error + ChainValues) \<times> ChainValues list" where
  "StuffDocumentsChain_call inner this vals seen =
     (if \<not> has_property vals (inputKey this)
      then (Inl (MissingInput (''Document key '' @ inputKey this @ '' not found.'')), seen)
      else
        (case get_property vals (inputKey this) of
           Some (Docs docs) \<Rightarrow>
             let rest = vals(inputKey this := None);
                 texts = map pageContent docs;
                 txt = join separator texts;
                 merged = rest(documentVariableName this \<mapsto> Str txt)
             in (inner (llmChain this) merged, seen @ [merged])
         | _ \<Rightarrow> (Inl TypeError, seen)))"

definition chainType :: string where
  "chainType = ''stuff_documents_chain''"

text \<open>
  Modelled from the spec: \<^verbatim>\<open>resolveConfigFromFile\<close> is imported from \<^verbatim>\<open>../util\<close>, which is
  not among the sources. Sections 4.4 and 6 of the specification: an inline
  configuration is returned as it is; a reference is resolved by reading the external
  resource (\<open>files\<close> maps a location to the configuration parsed from it); neither of
  the two, both of them, or a reference that cannot be read is \<open>ConfigResolution\<close>.
\<close>

definition resolveConfigFromFile ::
    "(string \<rightharpoonup> 's) \<Rightarrow> 's option \<Rightarrow> string option \<Rightarrow> error + 's" where
  "resolveConfigFromFile files inline path =
     (case (inline, path) of
        (Some cfg, None) \<Rightarrow> Inr cfg
      | (None, Some p) \<Rightarrow> (case files p of None \<Rightarrow> Inl ConfigResolution | Some cfg \<Rightarrow> Inr cfg)
      | _ \<Rightarrow> Inl ConfigResolution)"

text \<open>
  \<^verbatim>\<open>deserialize\<close> (lines 71 to 80); \<open>LLMChain_deserialize\<close> is the inner component's
  \<^verbatim>\<open>deserialize\<close>. The constructor is given the inner component only.
\<close>

definition StuffDocumentsChain_deserialize ::
    "(string \<rightharpoonup> 's) \<Rightarrow> ('s \<Rightarrow> error + 'c LLMChain) \<Rightarrow> 's SerializedStuffDocumentsChain
       \<Rightarrow> error + 'c StuffDocumentsChain" where
  "StuffDocumentsChain_deserialize files LLMChain_deserialize data =
     (case resolveConfigFromFile files (llm_chain data) (llm_chain_path data) of
        Inl e \<Rightarrow> Inl e
      | Inr serializedLLMChain \<Rightarrow>
          (case LLMChain_deserialize serializedLLMChain of
             Inl e \<Rightarrow> Inl e
           | Inr l \<Rightarrow> Inr (new_StuffDocumentsChain l None None None)))"

text \<open>\<^verbatim>\<open>serialize\<close> (lines 82 to 87); \<open>LLMChain_serialize\<close> is the inner component's.\<close>

definition StuffDocumentsChain_serialize ::
    "('c LLMChain \<Rightarrow> 's) \<Rightarrow> 'c StuffDocumentsChain \<Rightarrow> 's SerializedStuffDocumentsChain" where
  "StuffDocumentsChain_serialize LLMChain_serialize this =
     \<lparr>type_tag = chainType,
      llm_chain = Some (LLMChain_serialize (llmChain this)),
      llm_chain_path = None\<rparr>"

subsection \<open>Concrete collaborators for the examples\<close>

text \<open>An inner component that returns its input, and one that fails.\<close>

definition echo_chain :: "'c LLMChain \<Rightarrow> ChainValues \<Rightarrow> error + ChainValues" where
  "echo_chain l vals = Inr vals"

text \<open>
  A lossless serialization of the inner component as the pair of its type tag and its
  configuration.
\<close>

definition pair_serialize :: "'c LLMChain \<Rightarrow> string \<times> 'c" where
  "pair_serialize l = (chain_type l, chain_config l)"

definition pair_deserialize :: "string \<times> 'c \<Rightarrow> error + 'c LLMChain" where
  "pair_deserialize s = Inr \<lparr>chain_type = fst s, chain_config = snd s\<rparr>"

text \<open>
  An inner component whose serialized form is its type tag alone: its deserialization
  rebuilds the component with the configuration 0.
\<close>

definition tag_serialize :: "nat LLMChain \<Rightarrow> string" where
  "tag_serialize l = chain_type l"

definition tag_deserialize :: "string \<Rightarrow> error + nat LLMChain" where
  "tag_deserialize s = Inr \<lparr>chain_type = s, chain_config = 0\<rparr>"

section \<open>Properties of the chunker\<close>

lemma chunks_Nil [simp]: "chunks k [] = []"
  by (simp add: chunks.simps)

lemma chunks_zero [simp]: "chunks 0 xs = []"
  by (simp add: chunks.simps)

lemma chunks_step: "0 < k \<Longrightarrow> xs \<noteq> [] \<Longrightarrow> chunks k xs = take k xs # chunks k (drop k xs)"
  by (subst chunks.simps) simp

lemma concat_chunks: "0 < k \<Longrightarrow> concat (chunks k xs) = xs"
proof (induction k xs rule: chunks.induct)
  case (1 k xs)
  show ?case
  proof (cases "xs = []")
    case True
    then show ?thesis by simp
  next
    case False
    with 1 show ?thesis by (simp add: chunks_step)
  qed
qed

lemma chunks_eq_Nil_iff: "0 < k \<Longrightarrow> chunks k xs = [] \<longleftrightarrow> xs = []"
  by (cases "xs = []") (simp_all add: chunks_step)

lemma chunks_lengths:
  "0 < k \<Longrightarrow> i < length (chunks k xs) \<Longrightarrow>
     length (chunks k xs ! i) = (if Suc i < length (chunks k xs) then k
        else if length xs mod k = 0 then k else length xs mod k)"
proof (induction k xs arbitrary: i rule: chunks.induct)
  case (1 k xs)
  from "1.prems" have ne: "xs \<noteq> []" by auto
  have step: "chunks k xs = take k xs # chunks k (drop k xs)"
    using "1.prems"(1) ne by (rule chunks_step)
  show ?case
  proof (cases "drop k xs = []")
    case True
    then have le: "length xs \<le> k" by simp
    from True step have one: "chunks k xs = [take k xs]" by simp
    with "1.prems" have i0: "i = 0" by simp
    from ne have pos: "0 < length xs" by simp
    have "length (take k xs) = (if length xs mod k = 0 then k else length xs mod k)"
    proof (cases "length xs = k")
      case True
      then show ?thesis by simp
    next
      case False
      with le have "length xs < k" by simp
      with pos show ?thesis by simp
    qed
    with one i0 show ?thesis by simp
  next
    case False
    then have lt: "k < length xs" by simp
    have rest_ne: "chunks k (drop k xs) \<noteq> []"
      using False "1.prems"(1) by (simp add: chunks_eq_Nil_iff)
    have modeq: "length (drop k xs) mod k = length xs mod k"
      using lt by (simp add: le_mod_geq)
    show ?thesis
    proof (cases i)
      case 0
      with step rest_ne lt show ?thesis by (cases "chunks k (drop k xs)") simp_all
    next
      case (Suc j)
      with "1.prems" step have j: "j < length (chunks k (drop k xs))" by simp
      have "length (chunks k (drop k xs) ! j) =
          (if Suc j < length (chunks k (drop k xs)) then k
           else if length (drop k xs) mod k = 0 then k else length (drop k xs) mod k)"
        using "1.IH" "1.prems"(1) ne j by simp
      with Suc step modeq show ?thesis by simp
    qed
  qed
qed

text \<open>
  Claim C5. For every sequence \<open>S\<close> and every positive chunk size \<open>k\<close> the chunker
  succeeds, the concatenation of its chunks is \<open>S\<close>, every chunk but the last has
  length \<open>k\<close>, and the last has length \<open>length S mod k\<close> when \<open>k\<close> does not divide the
  length of \<open>S\<close> (and \<open>k\<close> when it does); a chunk size that is not positive is rejected
  with \<open>InvalidArgument\<close>. The chunker is a function of its two arguments only.
\<close>

theorem chunkArray_contract:
  "(0 < k \<longrightarrow>
      (\<exists>cs. chunkArray S k = Inr cs \<and> concat cs = S \<and>
         (\<forall>i. Suc i < length cs \<longrightarrow> length (cs ! i) = nat k) \<and>
         (cs \<noteq> [] \<longrightarrow> length (last cs) =
            (if length S mod nat k = 0 then nat k else length S mod nat k)))) \<and>
   (k \<le> 0 \<longrightarrow> chunkArray S k = Inl InvalidArgument)"
proof (intro conjI impI)
  assume k: "0 < k"
  then have nk: "0 < nat k" by simp
  let ?cs = "chunks (nat k) S"
  have a: "chunkArray S k = Inr ?cs" using k by (simp add: chunkArray_def)
  have b: "concat ?cs = S" using nk by (rule concat_chunks)
  have c: "\<forall>i. Suc i < length ?cs \<longrightarrow> length (?cs ! i) = nat k"
  proof (intro allI impI)
    fix i
    assume i: "Suc i < length ?cs"
    then have "i < length ?cs" by simp
    from chunks_lengths [OF nk this] i show "length (?cs ! i) = nat k" by simp
  qed
  have d: "?cs \<noteq> [] \<longrightarrow> length (last ?cs) =
            (if length S mod nat k = 0 then nat k else length S mod nat k)"
  proof
    assume ne: "?cs \<noteq> []"
    then have "length ?cs - 1 < length ?cs" by simp
    from chunks_lengths [OF nk this] ne show "length (last ?cs) =
            (if length S mod nat k = 0 then nat k else length S mod nat k)"
      by (simp add: last_conv_nth)
  qed
  from a b c d show "\<exists>cs. chunkArray S k = Inr cs \<and> concat cs = S \<and>
         (\<forall>i. Suc i < length cs \<longrightarrow> length (cs ! i) = nat k) \<and>
         (cs \<noteq> [] \<longrightarrow> length (last cs) =
            (if length S mod nat k = 0 then nat k else length S mod nat k))"
    by blast
next
  assume "k \<le> 0"
  then show "chunkArray S k = Inl InvalidArgument" by (simp add: chunkArray_def)
qed

theorem chunkArray_contract_witness:
  "(0::int) < 2 \<and>
   (\<exists>cs. chunkArray [1, 2, 3, 4, 5 :: nat] 2 = Inr cs \<and> concat cs = [1, 2, 3, 4, 5] \<and>
      cs \<noteq> [] \<and> length (last cs) = 1) \<and>
   (0::int) \<le> 0 \<and> chunkArray [1, 2, 3, 4, 5 :: nat] 0 = Inl InvalidArgument"
proof -
  have run: "chunkArray [1, 2, 3, 4, 5 :: nat] 2 = Inr [[1, 2], [3, 4], [5]]"
    by (simp add: chunkArray_def chunks_step)
  from chunkArray_contract [of 2 "[1, 2, 3, 4, 5 :: nat]"]
  obtain cs where cs: "chunkArray [1, 2, 3, 4, 5 :: nat] 2 = Inr cs" "concat cs = [1, 2, 3, 4, 5]"
      "cs \<noteq> [] \<longrightarrow> length (last cs) =
         (if length [1, 2, 3, 4, 5 :: nat] mod nat 2 = 0 then nat 2
          else length [1, 2, 3, 4, 5 :: nat] mod nat 2)"
    by auto
  from cs(1) run have ne: "cs \<noteq> []" by auto
  with cs(3) have "length (last cs) = 1" by simp
  with cs ne chunkArray_contract [of 0 "[1, 2, 3, 4, 5 :: nat]"] show ?thesis by auto
qed

section \<open>Properties of the document stuffing stage\<close>

text \<open>
  When the configured input key is neither an own property of the input map nor the
  name of a property of \<^verbatim>\<open>Object.prototype\<close>, the call fails with \<open>MissingInput\<close>, the
  message contains the name of the key, and the inner component is not invoked.
\<close>

lemma call_missing_own_key:
  "inputKey this \<notin> dom vals \<Longrightarrow> inputKey this \<notin> set Object_prototype \<Longrightarrow>
     StuffDocumentsChain_call inner this vals seen =
       (Inl (MissingInput (''Document key '' @ inputKey this @ '' not found.'')), seen)"
  by (simp add: StuffDocumentsChain_call_def has_property_def)

text \<open>
  Claim C8 does not hold of the code when the configured input key is the name of an
  inherited property. For a stage whose input key is \<open>toString\<close> and the input map
  \<open>{other: 1}\<close>, which does not contain that key, the test \<^verbatim>\<open>this.inputKey in values\<close> of
  line 54 is true, the throw of line 55 is skipped, and line 58 calls \<^verbatim>\<open>map\<close> on the
  inherited function: the call fails with a \<open>TypeError\<close> and not with \<open>MissingInput\<close>.
  The inner component is not invoked.
\<close>

theorem call_inherited_key:
  "''toString'' \<notin> dom [''other'' \<mapsto> Num 1] \<and>
   StuffDocumentsChain_call echo_chain
       (new_StuffDocumentsChain \<lparr>chain_type = ''llm_chain'', chain_config = (0::nat)\<rparr>
          (Some ''toString'') None None)
       [''other'' \<mapsto> Num 1] [] =
     (Inl TypeError, [])"
  by (simp add: StuffDocumentsChain_call_def new_StuffDocumentsChain_def has_property_def
      get_property_def Object_prototype_def)

text \<open>
  Claim C4, as stated, fails at two inputs. With the default keys and an input map that
  already binds \<open>context\<close>, the inner component receives the joined text at \<open>context\<close>
  and not the value the input map had there, so a key other than the input key is
  changed. With a stage whose context key is its input key, the inner component
  receives a map that binds the input key.
\<close>

theorem call_as_claimed_counterexample:
  "inputKey (new_StuffDocumentsChain \<lparr>chain_type = ''llm_chain'', chain_config = (0::nat)\<rparr>
       None None None) \<noteq> ''context'' \<and>
   [''input_documents'' \<mapsto> Docs [\<lparr>pageContent = ''A'', metadata = []\<rparr>],
    ''context'' \<mapsto> Num 1] ''context'' = Some (Num 1) \<and>
   hd (snd (StuffDocumentsChain_call echo_chain
       (new_StuffDocumentsChain \<lparr>chain_type = ''llm_chain'', chain_config = (0::nat)\<rparr>
          None None None)
       [''input_documents'' \<mapsto> Docs [\<lparr>pageContent = ''A'', metadata = []\<rparr>],
        ''context'' \<mapsto> Num 1] [])) ''context'' = Some (Str ''A'') \<and>
   hd (snd (StuffDocumentsChain_call echo_chain
       (new_StuffDocumentsChain \<lparr>chain_type = ''llm_chain'', chain_config = (0::nat)\<rparr>
          (Some ''docs'') None (Some ''docs''))
       [''docs'' \<mapsto> Docs [\<lparr>pageContent = ''A'', metadata = []\<rparr>]] []))
     (inputKey (new_StuffDocumentsChain \<lparr>chain_type = ''llm_chain'', chain_config = (0::nat)\<rparr>
        (Some ''docs'') None (Some ''docs''))) = Some (Str ''A'')"
  by (simp add: StuffDocumentsChain_call_def new_StuffDocumentsChain_def Let_def
      has_property_def get_property_def)

text \<open>
  Claim C4, amended. When the input map binds the configured input key to a list of
  documents, the call invokes the inner component exactly once, with a map that binds
  the configured context key to the documents' texts joined in list order by two line
  feeds, that omits the input key unless it is the context key, and that agrees with
  the input map on every key other than the input key and the context key; the call
  returns the inner component's result unchanged. With the default keys, the input
  \<open>{input_documents: [A, B], other: 1}\<close> reaches the inner component as
  \<open>{other: 1, context: "A\n\nB"}\<close>.
\<close>

theorem call_stuffs_documents:
  "(vals (inputKey this) = Some (Docs docs) \<longrightarrow>
     (\<exists>merged.
        StuffDocumentsChain_call inner this vals seen =
          (inner (llmChain this) merged, seen @ [merged]) \<and>
        merged (documentVariableName this) =
          Some (Str (join separator (map pageContent docs))) \<and>
        (inputKey this \<noteq> documentVariableName this \<longrightarrow> merged (inputKey this) = None) \<and>
        (\<forall>k. k \<noteq> inputKey this \<and> k \<noteq> documentVariableName this \<longrightarrow> merged k = vals k))) \<and>
   StuffDocumentsChain_call inner (new_StuffDocumentsChain l None None None)
       [''input_documents'' \<mapsto>
          Docs [\<lparr>pageContent = ''A'', metadata = []\<rparr>, \<lparr>pageContent = ''B'', metadata = []\<rparr>],
        ''other'' \<mapsto> Num 1] seen =
     (inner l [''other'' \<mapsto> Num 1, ''context'' \<mapsto> Str [CHR ''A'', CHR 0x0A, CHR 0x0A, CHR ''B'']],
      seen @ [[''other'' \<mapsto> Num 1,
               ''context'' \<mapsto> Str [CHR ''A'', CHR 0x0A, CHR 0x0A, CHR ''B'']]])"
proof
  show "vals (inputKey this) = Some (Docs docs) \<longrightarrow>
     (\<exists>merged.
        StuffDocumentsChain_call inner this vals seen =
          (inner (llmChain this) merged, seen @ [merged]) \<and>
        merged (documentVariableName this) =
          Some (Str (join separator (map pageContent docs))) \<and>
        (inputKey this \<noteq> documentVariableName this \<longrightarrow> merged (inputKey this) = None) \<and>
        (\<forall>k. k \<noteq> inputKey this \<and> k \<noteq> documentVariableName this \<longrightarrow> merged k = vals k))"
    by (simp add: StuffDocumentsChain_call_def dom_def Let_def has_property_def
        get_property_def)
next
  have m: "([''input_documents'' \<mapsto>
          Docs [\<lparr>pageContent = ''A'', metadata = []\<rparr>, \<lparr>pageContent = ''B'', metadata = []\<rparr>],
        ''other'' \<mapsto> Num 1])
          (''input_documents'' := None,
           ''context'' \<mapsto> Str [CHR ''A'', CHR 0x0A, CHR 0x0A, CHR ''B''])
     = [''other'' \<mapsto> Num 1, ''context'' \<mapsto> Str [CHR ''A'', CHR 0x0A, CHR 0x0A, CHR ''B'']]"
    by (rule ext) simp
  show "StuffDocumentsChain_call inner (new_StuffDocumentsChain l None None None)
       [''input_documents'' \<mapsto>
          Docs [\<lparr>pageContent = ''A'', metadata = []\<rparr>, \<lparr>pageContent = ''B'', metadata = []\<rparr>],
        ''other'' \<mapsto> Num 1] seen =
     (inner l [''other'' \<mapsto> Num 1, ''context'' \<mapsto> Str [CHR ''A'', CHR 0x0A, CHR 0x0A, CHR ''B'']],
      seen @ [[''other'' \<mapsto> Num 1,
               ''context'' \<mapsto> Str [CHR ''A'', CHR 0x0A, CHR 0x0A, CHR ''B'']]])"
    by (simp add: StuffDocumentsChain_call_def new_StuffDocumentsChain_def Let_def
        separator_def has_property_def get_property_def m)
qed

theorem call_stuffs_documents_witness:
  "[''docs'' \<mapsto> Docs [\<lparr>pageContent = ''A'', metadata = []\<rparr>], ''other'' \<mapsto> Num 1] ''docs''
     = Some (Docs [\<lparr>pageContent = ''A'', metadata = []\<rparr>]) \<and>
   (\<exists>merged.
      StuffDocumentsChain_call echo_chain
          (new_StuffDocumentsChain \<lparr>chain_type = ''llm_chain'', chain_config = (0::nat)\<rparr>
             (Some ''docs'') None (Some ''ctx''))
          [''docs'' \<mapsto> Docs [\<lparr>pageContent = ''A'', metadata = []\<rparr>], ''other'' \<mapsto> Num 1] []
        = (Inr merged, [merged]) \<and>
      merged ''ctx'' = Some (Str ''A'') \<and> merged ''docs'' = None \<and>
      merged ''other'' = Some (Num 1))"
proof -
  let ?vals = "[''docs'' \<mapsto> Docs [\<lparr>pageContent = ''A'', metadata = []\<rparr>], ''other'' \<mapsto> Num 1]"
  let ?stage = "new_StuffDocumentsChain \<lparr>chain_type = ''llm_chain'', chain_config = (0::nat)\<rparr>
             (Some ''docs'') None (Some ''ctx'')"
  have keys: "inputKey ?stage = ''docs''" "documentVariableName ?stage = ''ctx''"
    by (simp_all add: new_StuffDocumentsChain_def)
  have bound: "?vals (inputKey ?stage) = Some (Docs [\<lparr>pageContent = ''A'', metadata = []\<rparr>])"
    by (simp add: keys)
  from call_stuffs_documents
    [of ?vals ?stage "[\<lparr>pageContent = ''A'', metadata = []\<rparr>]" echo_chain "[]"
        "\<lparr>chain_type = ''llm_chain'', chain_config = (0::nat)\<rparr>"]
    bound
  obtain merged where
      run: "StuffDocumentsChain_call echo_chain ?stage ?vals [] =
              (echo_chain (llmChain ?stage) merged, [] @ [merged])"
    and ctx: "merged (documentVariableName ?stage) =
              Some (Str (join separator (map pageContent [\<lparr>pageContent = ''A'', metadata = []\<rparr>])))"
    and inp: "inputKey ?stage \<noteq> documentVariableName ?stage \<longrightarrow> merged (inputKey ?stage) = None"
    and rest: "\<forall>k. k \<noteq> inputKey ?stage \<and> k \<noteq> documentVariableName ?stage \<longrightarrow> merged k = ?vals k"
    by blast
  from run have 1: "StuffDocumentsChain_call echo_chain ?stage ?vals [] = (Inr merged, [merged])"
    by (simp add: echo_chain_def)
  from ctx have 2: "merged ''ctx'' = Some (Str ''A'')" by (simp add: keys)
  from inp have 3: "merged ''docs'' = None" by (simp add: keys)
  from rest have 4: "merged ''other'' = Some (Num 1)" by (simp add: keys)
  from 1 2 3 4 bound keys show ?thesis by auto
qed

text \<open>
  Claim C6, as stated, fails: the stage hands its inner component to that component's
  own \<^verbatim>\<open>serialize\<close> and rebuilds it with that component's own \<^verbatim>\<open>deserialize\<close>, so a
  component whose serialized form does not hold its configuration comes back with
  another one. Here the inner component has the configuration 7 and the stage
  reconstructed from the serialized stage has an inner component with the
  configuration 0.
\<close>

theorem serialize_roundtrip_counterexample:
  "chain_config (llmChain
       (new_StuffDocumentsChain \<lparr>chain_type = ''llm_chain'', chain_config = (7::nat)\<rparr>
          None None None)) = 7 \<and>
   StuffDocumentsChain_deserialize Map.empty tag_deserialize
       (StuffDocumentsChain_serialize tag_serialize
          (new_StuffDocumentsChain \<lparr>chain_type = ''llm_chain'', chain_config = (7::nat)\<rparr>
             None None None)) =
     Inr \<lparr>llmChain = \<lparr>chain_type = ''llm_chain'', chain_config = 0\<rparr>,
          inputKey = ''input_documents'', outputKey = ''output_text'',
          documentVariableName = ''context''\<rparr>"
  by (simp add: StuffDocumentsChain_deserialize_def StuffDocumentsChain_serialize_def
      resolveConfigFromFile_def new_StuffDocumentsChain_def tag_serialize_def
      tag_deserialize_def)

text \<open>
  Claim C6, amended. Deserializing the serialized stage gives exactly what the inner
  component's \<^verbatim>\<open>deserialize\<close> gives for the inner component's own serialization: its
  error, or the stage the constructor builds from the component it returns. The same
  holds for the form that refers to an external location, when that location holds
  the inner component's serialization. Hence, for both forms, the reconstructed stage
  has an inner component of the same type and configuration whenever the inner
  component's own round trip returns one, and only then.
\<close>

theorem serialize_roundtrip:
  "StuffDocumentsChain_deserialize files LLMChain_deserialize
       (StuffDocumentsChain_serialize LLMChain_serialize this) =
     (case LLMChain_deserialize (LLMChain_serialize (llmChain this)) of
        Inl e \<Rightarrow> Inl e
      | Inr l \<Rightarrow> Inr (new_StuffDocumentsChain l None None None)) \<and>
   (files p = Some (LLMChain_serialize (llmChain this)) \<longrightarrow>
      StuffDocumentsChain_deserialize files LLMChain_deserialize
          \<lparr>type_tag = chainType, llm_chain = None, llm_chain_path = Some p\<rparr> =
        (case LLMChain_deserialize (LLMChain_serialize (llmChain this)) of
           Inl e \<Rightarrow> Inl e
         | Inr l \<Rightarrow> Inr (new_StuffDocumentsChain l None None None))) \<and>
   (LLMChain_deserialize (LLMChain_serialize (llmChain this)) = Inr l \<and>
    chain_type l = chain_type (llmChain this) \<and>
    chain_config l = chain_config (llmChain this) \<longrightarrow>
      (\<exists>st. StuffDocumentsChain_deserialize files LLMChain_deserialize
               (StuffDocumentsChain_serialize LLMChain_serialize this) = Inr st \<and>
            chain_type (llmChain st) = chain_type (llmChain this) \<and>
            chain_config (llmChain st) = chain_config (llmChain this)) \<and>
      (files p = Some (LLMChain_serialize (llmChain this)) \<longrightarrow>
         (\<exists>st. StuffDocumentsChain_deserialize files LLMChain_deserialize
                  \<lparr>type_tag = chainType, llm_chain = None, llm_chain_path = Some p\<rparr> = Inr st \<and>
               chain_type (llmChain st) = chain_type (llmChain this) \<and>
               chain_config (llmChain st) = chain_config (llmChain this)))) \<and>
   ((\<exists>st. StuffDocumentsChain_deserialize files LLMChain_deserialize
            (StuffDocumentsChain_serialize LLMChain_serialize this) = Inr st \<and>
          chain_type (llmChain st) = chain_type (llmChain this) \<and>
          chain_config (llmChain st) = chain_config (llmChain this)) \<longrightarrow>
      (\<exists>l'. LLMChain_deserialize (LLMChain_serialize (llmChain this)) = Inr l' \<and>
            chain_type l' = chain_type (llmChain this) \<and>
            chain_config l' = chain_config (llmChain this)))"
proof -
  let ?inner = "LLMChain_deserialize (LLMChain_serialize (llmChain this))"
  let ?built = "case ?inner of
        Inl e \<Rightarrow> Inl e
      | Inr l \<Rightarrow> Inr (new_StuffDocumentsChain l None None None)"
  have inline: "StuffDocumentsChain_deserialize files LLMChain_deserialize
       (StuffDocumentsChain_serialize LLMChain_serialize this) = ?built"
    by (simp add: StuffDocumentsChain_deserialize_def StuffDocumentsChain_serialize_def
        resolveConfigFromFile_def)
  have extern: "StuffDocumentsChain_deserialize files LLMChain_deserialize
          \<lparr>type_tag = chainType, llm_chain = None, llm_chain_path = Some p\<rparr> = ?built"
    if "files p = Some (LLMChain_serialize (llmChain this))"
    using that
    by (simp add: StuffDocumentsChain_deserialize_def resolveConfigFromFile_def)
  have inner_of: "llmChain (new_StuffDocumentsChain x None None None) = x"
    for x :: "'a LLMChain"
    by (simp add: new_StuffDocumentsChain_def)
  have sufficient: "?built = Inr (new_StuffDocumentsChain l None None None)"
    if "?inner = Inr l"
    using that by simp
  have necessary: "\<exists>l'. ?inner = Inr l' \<and> chain_type l' = chain_type (llmChain this) \<and>
            chain_config l' = chain_config (llmChain this)"
    if "?built = Inr st" "chain_type (llmChain st) = chain_type (llmChain this)"
       "chain_config (llmChain st) = chain_config (llmChain this)" for st
    using that by (cases ?inner) (auto simp: inner_of)
  show ?thesis
    unfolding inline
    using extern sufficient necessary by (auto simp: inner_of)
qed

theorem serialize_roundtrip_witness:
  "(\<exists>st. StuffDocumentsChain_deserialize [''chain.json'' \<mapsto> (''llm_chain'', 7::nat)]
           pair_deserialize
           (StuffDocumentsChain_serialize pair_serialize
              (new_StuffDocumentsChain \<lparr>chain_type = ''llm_chain'', chain_config = (7::nat)\<rparr>
                 (Some ''docs'') None None)) = Inr st \<and>
         chain_type (llmChain st) = ''llm_chain'' \<and> chain_config (llmChain st) = 7) \<and>
   (\<exists>st. StuffDocumentsChain_deserialize [''chain.json'' \<mapsto> (''llm_chain'', 7::nat)]
           pair_deserialize
           \<lparr>type_tag = chainType, llm_chain = None, llm_chain_path = Some ''chain.json''\<rparr> = Inr st \<and>
         chain_type (llmChain st) = ''llm_chain'' \<and> chain_config (llmChain st) = 7)"
proof -
  let ?l = "\<lparr>chain_type = ''llm_chain'', chain_config = (7::nat)\<rparr>"
  let ?stage = "new_StuffDocumentsChain ?l (Some ''docs'') None None"
  let ?files = "[''chain.json'' \<mapsto> (''llm_chain'', 7::nat)]"
  have l: "llmChain ?stage = ?l" by (simp add: new_StuffDocumentsChain_def)
  have inner: "pair_deserialize (pair_serialize (llmChain ?stage)) = Inr ?l \<and>
      chain_type ?l = chain_type (llmChain ?stage) \<and>
      chain_config ?l = chain_config (llmChain ?stage)"
    by (simp add: l pair_deserialize_def pair_serialize_def)
  have stored: "?files ''chain.json'' = Some (pair_serialize (llmChain ?stage))"
    by (simp add: l pair_serialize_def)
  from serialize_roundtrip
    [of ?files pair_deserialize pair_serialize ?stage "''chain.json''" ?l]
    inner stored
  have "(\<exists>st. StuffDocumentsChain_deserialize ?files pair_deserialize
               (StuffDocumentsChain_serialize pair_serialize ?stage) = Inr st \<and>
            chain_type (llmChain st) = chain_type (llmChain ?stage) \<and>
            chain_config (llmChain st) = chain_config (llmChain ?stage)) \<and>
        (\<exists>st. StuffDocumentsChain_deserialize ?files pair_deserialize
                  \<lparr>type_tag = chainType, llm_chain = None, llm_chain_path = Some ''chain.json''\<rparr>
                = Inr st \<and>
               chain_type (llmChain st) = chain_type (llmChain ?stage) \<and>
               chain_config (llmChain st) = chain_config (llmChain ?stage))"
    by blast
  then show ?thesis by (simp add: l)
qed

text \<open>
  Claim C9. Whatever the serialized configuration, a stage that \<open>deserialize\<close> returns
  has the input key \<open>input_documents\<close>, the output key \<open>output_text\<close> and the context key
  \<open>context\<close>. In particular the stage obtained from the serialization of a stage,
  whatever keys that stage was constructed with, has the default keys: it is the stage
  the constructor builds from the inner component alone.
\<close>

theorem deserialize_default_keys:
  "(\<forall>st. StuffDocumentsChain_deserialize files LLMChain_deserialize data = Inr st \<longrightarrow>
      inputKey st = ''input_documents'' \<and> outputKey st = ''output_text'' \<and>
      documentVariableName st = ''context'') \<and>
   (LLMChain_deserialize (LLMChain_serialize (llmChain this)) = Inr l \<longrightarrow>
      StuffDocumentsChain_deserialize files LLMChain_deserialize
          (StuffDocumentsChain_serialize LLMChain_serialize this) =
        Inr \<lparr>llmChain = l, inputKey = ''input_documents'', outputKey = ''output_text'',
             documentVariableName = ''context''\<rparr>)"
  by (auto simp: StuffDocumentsChain_deserialize_def StuffDocumentsChain_serialize_def
      resolveConfigFromFile_def new_StuffDocumentsChain_def split: sum.splits)

theorem deserialize_default_keys_witness:
  "inputKey (new_StuffDocumentsChain \<lparr>chain_type = ''llm_chain'', chain_config = (7::nat)\<rparr>
       (Some ''docs'') (Some ''answer'') (Some ''ctx'')) = ''docs'' \<and>
   StuffDocumentsChain_deserialize Map.empty pair_deserialize
       (StuffDocumentsChain_serialize pair_serialize
          (new_StuffDocumentsChain \<lparr>chain_type = ''llm_chain'', chain_config = (7::nat)\<rparr>
             (Some ''docs'') (Some ''answer'') (Some ''ctx''))) =
     Inr \<lparr>llmChain = \<lparr>chain_type = ''llm_chain'', chain_config = 7\<rparr>,
          inputKey = ''input_documents'', outputKey = ''output_text'',
          documentVariableName = ''context''\<rparr>"
  using deserialize_default_keys
    [of Map.empty pair_deserialize
        "StuffDocumentsChain_serialize pair_serialize
          (new_StuffDocumentsChain \<lparr>chain_type = ''llm_chain'', chain_config = (7::nat)\<rparr>
             (Some ''docs'') (Some ''answer'') (Some ''ctx''))"
        pair_serialize
        "new_StuffDocumentsChain \<lparr>chain_type = ''llm_chain'', chain_config = (7::nat)\<rparr>
             (Some ''docs'') (Some ''answer'') (Some ''ctx'')"
        "\<lparr>chain_type = ''llm_chain'', chain_config = (7::nat)\<rparr>"]
  by (simp add: new_StuffDocumentsChain_def pair_deserialize_def pair_serialize_def)

section \<open>Properties of the completion client\<close>

subsection \<open>The retrying call\<close>

lemma attempts_Inr: "attempts thunk k c = (Inr r, c') \<Longrightarrow> \<exists>i. thunk i = Inr r"
  by (induction k arbitrary: c) (auto split: sum.splits)

lemma attempts_Inl: "attempts thunk k c = (Inl e, c') \<Longrightarrow> \<exists>t. e = RetryExhausted t"
  by (induction k arbitrary: c) (auto split: sum.splits)

lemma attempts_first_success: "thunk c = Inr r \<Longrightarrow> attempts thunk k c = (Inr r, Suc c)"
  by (cases k) simp_all

lemma completionWithRetry_Inr:
  "completionWithRetry client this req c = (Inr data, c') \<Longrightarrow> \<exists>i. client i req = Inr data"
  unfolding completionWithRetry_def backOff_def by (drule attempts_Inr) simp

lemma completionWithRetry_Inl:
  "completionWithRetry client this req c = (Inl e, c') \<Longrightarrow> \<exists>t. e = RetryExhausted t"
  unfolding completionWithRetry_def backOff_def by (rule attempts_Inl)

text \<open>The equations that evaluate \<open>generate\<close> on the concrete transports.\<close>

lemmas generate_eval =
  generate_def chunkArray_def chunks.simps OpenAI_default_def call_params_def
  invocationParams_def completionWithRetry_def backOff_def echo_client_def Let_def
  addUsage_def add_counter_def attempts_first_success

subsection \<open>The loop over the batches\<close>

lemma generate_loop_append:
  "generate_loop client this params (xs @ ys) chs tu c =
     (case generate_loop client this params xs chs tu c of
        (Inl e, c') \<Rightarrow> (Inl e, c')
      | (Inr (chs', tu'), c') \<Rightarrow> generate_loop client this params ys chs' tu' c')"
  by (induction xs arbitrary: chs tu c) (auto split: prod.splits sum.splits)

lemma generate_loop_usage:
  "generate_loop client this params bs chs tu c = (Inr (chs', tu'), c') \<Longrightarrow>
     tu' = foldl addUsage tu (map resp_usage (batch_responses client this params bs c)) \<and>
     length (batch_responses client this params bs c) = length bs"
proof (induction bs arbitrary: chs tu c)
  case Nil
  then show ?case by simp
next
  case (Cons b bs)
  from Cons.prems obtain data c1 where
      call: "completionWithRetry client this (params(''prompt'' \<mapsto> JStrs b)) c = (Inr data, c1)"
    and rest: "generate_loop client this params bs (chs @ choices data)
                 (addUsage tu (resp_usage data)) c1 = (Inr (chs', tu'), c')"
    by (auto split: prod.splits sum.splits)
  from Cons.IH [OF rest] call show ?case by simp
qed

lemma replicas_contiguous_append:
  "replicas_contiguous R n ps chs \<Longrightarrow> replicas_contiguous R n qs chs' \<Longrightarrow>
     replicas_contiguous R n (ps @ qs) (chs @ chs')"
proof (induction ps arbitrary: chs)
  case Nil
  then show ?case by simp
next
  case (Cons p ps)
  from Cons.prems(1) have le: "n \<le> length chs" and front: "list_all (R p) (take n chs)"
    and later: "replicas_contiguous R n ps (drop n chs)" by simp_all
  from Cons.IH [OF later Cons.prems(2)] le front show ?case by simp
qed

lemma generate_loop_contiguous:
  "(\<And>i b data. b \<in> set bs \<Longrightarrow> client i (params(''prompt'' \<mapsto> JStrs b)) = Inr data \<Longrightarrow>
                 replicas_contiguous R n b (choices data)) \<Longrightarrow>
   generate_loop client this params bs chs tu c = (Inr (chs', tu'), c') \<Longrightarrow>
           \<exists>new. chs' = chs @ new \<and> replicas_contiguous R n (concat bs) new"
proof (induction bs arbitrary: chs tu c)
  case Nil
  then show ?case by simp
next
  case (Cons b bs)
  from Cons.prems(2) obtain data c1 where
      call: "completionWithRetry client this (params(''prompt'' \<mapsto> JStrs b)) c = (Inr data, c1)"
    and rest: "generate_loop client this params bs (chs @ choices data)
                 (addUsage tu (resp_usage data)) c1 = (Inr (chs', tu'), c')"
    by (auto split: prod.splits sum.splits)
  from completionWithRetry_Inr [OF call] obtain i where
    "client i (params(''prompt'' \<mapsto> JStrs b)) = Inr data" by blast
  moreover have "b \<in> set (b # bs)" by simp
  ultimately have here: "replicas_contiguous R n b (choices data)"
    by (rule Cons.prems(1) [rotated])
  have "\<exists>new. chs' = (chs @ choices data) @ new \<and> replicas_contiguous R n (concat bs) new"
    using rest
  proof (rule Cons.IH [rotated])
    fix j b' d
    assume later: "b' \<in> set bs"
      and answer: "client j (params(''prompt'' \<mapsto> JStrs b')) = Inr d"
    from later have "b' \<in> set (b # bs)" by simp
    from Cons.prems(1) [OF this answer] show "replicas_contiguous R n b' (choices d)" .
  qed
  then obtain new where
      new: "chs' = (chs @ choices data) @ new" "replicas_contiguous R n (concat bs) new"
    by blast
  from replicas_contiguous_append [OF here new(2)] new(1) show ?case by simp
qed

lemma chunks_replicas:
  "0 < n \<Longrightarrow> replicas_contiguous R n ps chs \<Longrightarrow>
     list_all2 (\<lambda>p g. length g = n \<and> list_all (R p) g) ps (chunks n chs)"
proof (induction ps arbitrary: chs)
  case Nil
  then show ?case by simp
next
  case (Cons p ps)
  from Cons.prems have le: "n \<le> length chs" and front: "list_all (R p) (take n chs)"
    and later: "replicas_contiguous R n ps (drop n chs)" by simp_all
  from le Cons.prems(1) have ne: "chs \<noteq> []" by auto
  from Cons.IH [OF Cons.prems(1) later] le front show ?case
    by (simp add: chunks_step [OF Cons.prems(1) ne])
qed

lemma generate_Inr:
  assumes "generate client this prompts stop c = (Inr res, c')"
  obtains chs where "0 < batchSize this" "0 < cfg_n this"
    "generate_loop client this (call_params this stop) (chunks (nat (batchSize this)) prompts) []
        \<lparr>completionTokens = None, promptTokens = None, totalTokens = None\<rparr> c
       = (Inr (chs, tokenUsage res), c')"
    "generations res = map (map toGeneration) (chunks (nat (cfg_n this)) chs)"
  using assms unfolding generate_def chunkArray_def
  by (auto simp: Let_def split: if_splits prod.splits sum.splits)

lemma generate_loop_returns:
  "length (batch_responses client this params bs c) = length bs \<Longrightarrow>
     \<exists>chs' tu' c'. generate_loop client this params bs chs tu c = (Inr (chs', tu'), c')"
proof (induction bs arbitrary: chs tu c)
  case Nil
  then show ?case by simp
next
  case (Cons b bs)
  obtain out c1 where
      call: "completionWithRetry client this (params(''prompt'' \<mapsto> JStrs b)) c = (out, c1)"
    by (cases "completionWithRetry client this (params(''prompt'' \<mapsto> JStrs b)) c")
  show ?case
  proof (cases out)
    case (Inl e)
    with call Cons.prems show ?thesis by simp
  next
    case (Inr data)
    with call Cons.prems have "length (batch_responses client this params bs c1) = length bs"
      by simp
    from Cons.IH [OF this] call Inr show ?thesis by simp
  qed
qed

text \<open>
  The call returns a result whenever the batch size and the replication factor are
  positive, at most one stop list is defined and every batch obtains a response.
\<close>

lemma generate_returns:
  assumes "0 < batchSize this" and "0 < cfg_n this"
    and "cfg_stop this = None \<or> stop = None"
    and "length (responses_of client this prompts stop c) =
           length (chunks (nat (batchSize this)) prompts)"
  shows "\<exists>res c'. generate client this prompts stop c = (Inr res, c')"
proof -
  from assms(4) have "length (batch_responses client this (call_params this stop)
       (chunks (nat (batchSize this)) prompts) c) = length (chunks (nat (batchSize this)) prompts)"
    by (simp add: responses_of_def)
  from generate_loop_returns [OF this] obtain chs tu c' where
    "generate_loop client this (call_params this stop) (chunks (nat (batchSize this)) prompts) []
        \<lparr>completionTokens = None, promptTokens = None, totalTokens = None\<rparr> c
       = (Inr (chs, tu), c')"
    by blast
  with assms(1-3) show ?thesis
    by (auto simp: generate_def chunkArray_def Let_def)
qed

lemma replicate_each_contiguous:
  "replicas_contiguous answers n ps (concat (map (\<lambda>p. replicate n (mk_choice p)) ps))"
  by (induction ps) (simp_all add: answers_def mk_choice_def list_all_iff)

subsection \<open>Grouping of the completions\<close>

text \<open>
  Claim C1. Assume that every successful response of the transport to a request that
  the call sends for one of its batches holds, for each prompt of the batch in order,
  \<open>n\<close> completions of that prompt, and nothing else. If \<open>generate\<close> returns a result,
  then the result has one group for each prompt, every group has \<open>n\<close> generations, and
  every generation of the \<open>i\<close>-th group is made from a completion of the \<open>i\<close>-th prompt.
  The batch size is arbitrary.
\<close>

theorem generate_groups:
  assumes ok: "generate client this prompts stop c = (Inr res, c')"
    and tr: "\<forall>i b data. b \<in> set (chunks (nat (batchSize this)) prompts) \<and>
               client i ((call_params this stop)(''prompt'' \<mapsto> JStrs b)) = Inr data \<longrightarrow>
               replicas_contiguous R (nat (cfg_n this)) b (choices data)"
  shows "length (generations res) = length prompts \<and>
         (\<forall>i<length prompts.
            length (generations res ! i) = nat (cfg_n this) \<and>
            (\<forall>g\<in>set (generations res ! i). \<exists>ch. R (prompts ! i) ch \<and> g = toGeneration ch))"
proof -
  from ok obtain chs where bpos: "0 < batchSize this" and npos: "0 < cfg_n this"
    and loop: "generate_loop client this (call_params this stop)
        (chunks (nat (batchSize this)) prompts) []
        \<lparr>completionTokens = None, promptTokens = None, totalTokens = None\<rparr> c
       = (Inr (chs, tokenUsage res), c')"
    and gens: "generations res = map (map toGeneration) (chunks (nat (cfg_n this)) chs)"
    by (rule generate_Inr)
  have "\<exists>new. chs = [] @ new \<and>
      replicas_contiguous R (nat (cfg_n this)) (concat (chunks (nat (batchSize this)) prompts)) new"
    using loop
  proof (rule generate_loop_contiguous [rotated])
    fix i b data
    assume "b \<in> set (chunks (nat (batchSize this)) prompts)"
      and "client i ((call_params this stop)(''prompt'' \<mapsto> JStrs b)) = Inr data"
    with tr show "replicas_contiguous R (nat (cfg_n this)) b (choices data)"
      by blast
  qed
  with bpos have rc: "replicas_contiguous R (nat (cfg_n this)) prompts chs"
    by (simp add: concat_chunks)
  from npos have "0 < nat (cfg_n this)" by simp
  from chunks_replicas [OF this rc]
  have all2: "list_all2 (\<lambda>p g. length g = nat (cfg_n this) \<and> list_all (R p) g) prompts
                (chunks (nat (cfg_n this)) chs)" .
  then have len: "length (chunks (nat (cfg_n this)) chs) = length prompts"
    by (simp add: list_all2_lengthD)
  have lens: "length (generations res) = length prompts" using gens len by simp
  have each: "length (generations res ! i) = nat (cfg_n this) \<and>
            (\<forall>g\<in>set (generations res ! i). \<exists>ch. R (prompts ! i) ch \<and> g = toGeneration ch)"
    if i: "i < length prompts" for i
  proof -
    from list_all2_nthD [OF all2 i]
    have g: "length (chunks (nat (cfg_n this)) chs ! i) = nat (cfg_n this)"
         "list_all (R (prompts ! i)) (chunks (nat (cfg_n this)) chs ! i)" by simp_all
    from i len gens
    have nth: "generations res ! i = map toGeneration (chunks (nat (cfg_n this)) chs ! i)"
      by simp
    show ?thesis using g nth by (auto simp: list_all_iff)
  qed
  from lens each show ?thesis by blast
qed

theorem generate_groups_witness:
  "\<exists>res c'.
     generate honest_client (OpenAI_default\<lparr>cfg_n := 2, batchSize := 2\<rparr>)
       [''a'', ''b'', ''c''] None 0 = (Inr res, c') \<and>
     length (generations res) = 3 \<and>
     length (generations res ! 2) = 2 \<and>
     (\<exists>ch. answers ''c'' ch \<and> hd (generations res ! 2) = toGeneration ch)"
proof -
  let ?eng = "OpenAI_default\<lparr>cfg_n := 2, batchSize := 2\<rparr>"
  let ?res = "\<lparr>generations =
       [[toGeneration (mk_choice ''a''), toGeneration (mk_choice ''a'')],
        [toGeneration (mk_choice ''b''), toGeneration (mk_choice ''b'')],
        [toGeneration (mk_choice ''c''), toGeneration (mk_choice ''c'')]],
     tokenUsage = \<lparr>completionTokens = None, promptTokens = None, totalTokens = None\<rparr>\<rparr>"
  have run: "generate honest_client ?eng [''a'', ''b'', ''c''] None 0 = (Inr ?res, 2)"
    by (simp add: generate_eval honest_client_def numeral_2_eq_2)
  have n2: "nat (cfg_n ?eng) = 2" by (simp add: OpenAI_default_def)
  have asked: "(call_params ?eng None) ''n'' = Some (JNum 2)"
    by (simp add: call_params_def invocationParams_def OpenAI_default_def)
  have tr: "\<forall>i b data. b \<in> set (chunks (nat (batchSize ?eng)) [''a'', ''b'', ''c'']) \<and>
               honest_client i ((call_params ?eng None)(''prompt'' \<mapsto> JStrs b)) = Inr data \<longrightarrow>
               replicas_contiguous answers (nat (cfg_n ?eng)) b (choices data)"
    unfolding n2 by (auto simp: honest_client_def asked replicate_each_contiguous)
  from generate_groups [OF run tr]
  have len: "length (generations ?res) = length [''a'', ''b'', ''c'']"
    and each: "\<forall>i<length [''a'', ''b'', ''c''].
            length (generations ?res ! i) = nat (cfg_n ?eng) \<and>
            (\<forall>g\<in>set (generations ?res ! i).
               \<exists>ch. answers ([''a'', ''b'', ''c''] ! i) ch \<and> g = toGeneration ch)"
    by blast+
  have "(2::nat) < length [''a'', ''b'', ''c'']" by simp
  with each have two: "length (generations ?res ! 2) = nat (cfg_n ?eng)"
    and from_c: "\<forall>g\<in>set (generations ?res ! 2).
               \<exists>ch. answers ([''a'', ''b'', ''c''] ! 2) ch \<and> g = toGeneration ch"
    by blast+
  from two have "length (generations ?res ! 2) = 2" by (simp add: n2)
  moreover have "hd (generations ?res ! 2) \<in> set (generations ?res ! 2)" by simp
  with from_c have "\<exists>ch. answers ''c'' ch \<and> hd (generations ?res ! 2) = toGeneration ch"
    by fastforce
  moreover from len have "length (generations ?res) = 3" by simp
  ultimately show ?thesis using run by blast
qed

subsection \<open>The stop lists\<close>

text \<open>
  Claim C2. When the engine has a non-empty configured stop list and the call is given
  a non-empty stop list, the call fails and the transport is not invoked: the number of
  invocations after the call is the number before it. For an engine with a positive
  batch size, as the configuration requires, the failure is the stop conflict. (The
  prompts are chunked on line 296, before the test of line 300; the chunker, as the
  specification describes it, rejects a batch size that is not positive.)
\<close>

theorem generate_stop_conflict:
  assumes "cfg_stop this = Some s" and "s \<noteq> []" and "stop = Some t" and "t \<noteq> []"
  shows "snd (generate client this prompts stop c) = c \<and>
         isl (fst (generate client this prompts stop c)) \<and>
         (0 < batchSize this \<longrightarrow>
            generate client this prompts stop c =
              (Inl (ConfigConflict ''Stop found in input and default params''), c))"
  using assms by (simp add: generate_def chunkArray_def)

theorem generate_stop_conflict_witness:
  "cfg_stop (OpenAI_default\<lparr>cfg_stop := Some [''END'']\<rparr>) = Some [''END''] \<and>
   0 < batchSize (OpenAI_default\<lparr>cfg_stop := Some [''END'']\<rparr>) \<and>
   generate echo_client (OpenAI_default\<lparr>cfg_stop := Some [''END'']\<rparr>) [''a'', ''b'']
       (Some [''STOP'']) 0 =
     (Inl (ConfigConflict ''Stop found in input and default params''), 0)"
  using generate_stop_conflict
    [of "OpenAI_default\<lparr>cfg_stop := Some [''END'']\<rparr>" "[''END'']" "Some [''STOP'']"
        "[''STOP'']" echo_client "[''a'', ''b'']" 0]
  by (simp add: OpenAI_default_def)

text \<open>
  Claim C10. The test of line 300 is on the two lists being defined, not on their being
  non-empty: when the engine has a configured stop list and the call is given a stop
  list, empty or not, the call fails and the transport is not invoked, and for an
  engine with a positive batch size the failure is the stop conflict.
\<close>

theorem generate_stop_presence:
  assumes "cfg_stop this = Some s" and "stop = Some t"
  shows "snd (generate client this prompts stop c) = c \<and>
         isl (fst (generate client this prompts stop c)) \<and>
         (0 < batchSize this \<longrightarrow>
            generate client this prompts stop c =
              (Inl (ConfigConflict ''Stop found in input and default params''), c))"
  using assms by (simp add: generate_def chunkArray_def)

theorem generate_stop_presence_witness:
  "cfg_stop (OpenAI_default\<lparr>cfg_stop := Some []\<rparr>) = Some [] \<and>
   0 < batchSize (OpenAI_default\<lparr>cfg_stop := Some []\<rparr>) \<and>
   generate echo_client (OpenAI_default\<lparr>cfg_stop := Some []\<rparr>) [''a'', ''b''] (Some []) 0 =
     (Inl (ConfigConflict ''Stop found in input and default params''), 0)"
  using generate_stop_presence
    [of "OpenAI_default\<lparr>cfg_stop := Some []\<rparr>" "[]" "Some []" "[]" echo_client
        "[''a'', ''b'']" 0]
  by (simp add: OpenAI_default_def)

subsection \<open>Failure of a batch\<close>

text \<open>
  Claim C7. Let the prompts be chunked into batches, let the batches before some batch
  \<open>b\<close> succeed (with whatever choices and usage they accumulate), and let the retrying
  call for \<open>b\<close> fail with the error \<open>e\<close>. Then the whole call fails with \<open>e\<close>, which is
  a \<open>RetryExhausted\<close> error: the outcome is that error alone and carries neither the
  choices nor the usage accumulated before.
\<close>

theorem generate_all_or_nothing:
  assumes batches: "chunkArray prompts (batchSize this) = Inr (bs1 @ b # bs2)"
    and noconf: "cfg_stop this = None \<or> stop = None"
    and before: "generate_loop client this (call_params this stop) bs1 []
                   \<lparr>completionTokens = None, promptTokens = None, totalTokens = None\<rparr> c
                 = (Inr (chs, tu), c1)"
    and fails: "completionWithRetry client this
                  ((call_params this stop)(''prompt'' \<mapsto> JStrs b)) c1 = (Inl e, c2)"
  shows "generate client this prompts stop c = (Inl e, c2) \<and> (\<exists>t. e = RetryExhausted t)"
proof -
  have "generate_loop client this (call_params this stop) (bs1 @ b # bs2) []
          \<lparr>completionTokens = None, promptTokens = None, totalTokens = None\<rparr> c = (Inl e, c2)"
    using before fails by (simp add: generate_loop_append)
  with batches noconf have "generate client this prompts stop c = (Inl e, c2)"
    by (auto simp: generate_def Let_def)
  with completionWithRetry_Inl [OF fails] show ?thesis by simp
qed

theorem generate_all_or_nothing_witness:
  "chunkArray [''ok'', ''boom'', ''later''] (batchSize (OpenAI_default\<lparr>batchSize := 1, maxRetries := 2\<rparr>))
     = Inr [[''ok''], [''boom''], [''later'']] \<and>
   generate flaky_client (OpenAI_default\<lparr>batchSize := 1, maxRetries := 2\<rparr>)
       [''ok'', ''boom'', ''later''] None 0 =
     (Inl (RetryExhausted ''unavailable''), 3)"
proof -
  let ?eng = "OpenAI_default\<lparr>batchSize := 1, maxRetries := 2\<rparr>"
  have batches: "chunkArray [''ok'', ''boom'', ''later''] (batchSize ?eng)
                   = Inr ([[''ok'']] @ [''boom''] # [[''later'']])"
    by (simp add: chunkArray_def chunks.simps OpenAI_default_def)
  have noconf: "cfg_stop ?eng = None \<or> (None :: string list option) = None" by simp
  have before: "generate_loop flaky_client ?eng (call_params ?eng None) [[''ok'']] []
                   \<lparr>completionTokens = None, promptTokens = None, totalTokens = None\<rparr> 0
                 = (Inr ([mk_choice ''ok'', mk_choice ''ok''],
                         \<lparr>completionTokens = None, promptTokens = Some 1, totalTokens = Some 1\<rparr>),
                    1)"
    by (simp add: generate_eval flaky_client_def)
  have fails: "completionWithRetry flaky_client ?eng
                  ((call_params ?eng None)(''prompt'' \<mapsto> JStrs [''boom''])) 1
                = (Inl (RetryExhausted ''unavailable''), 3)"
    by (simp add: generate_eval flaky_client_def)
  from generate_all_or_nothing [OF batches noconf before fails] batches
  show ?thesis by simp
qed

subsection \<open>Token usage\<close>

lemma or_zero_simps [simp]: "or_zero None = 0" "or_zero (Some x) = x"
  by (simp_all add: or_zero_def)

lemma add_counter_simps:
  "add_counter acc None = acc"
  "add_counter acc (Some 0) = acc"
  "x \<noteq> 0 \<Longrightarrow> add_counter acc (Some x) = Some (or_zero acc + x)"
  by (simp_all add: add_counter_def or_zero_def)

lemma foldl_add_counter:
  "foldl add_counter acc vs =
     (if acc = None \<and> (\<forall>v\<in>set vs. or_zero v = 0) then None
      else Some (or_zero acc + sum_list (map or_zero vs)))"
proof (induction vs arbitrary: acc)
  case Nil
  then show ?case by (cases acc) simp_all
next
  case (Cons v vs)
  show ?case
  proof (cases v)
    case None
    then show ?thesis using Cons.IH [of acc] by (simp add: add_counter_simps)
  next
    case (Some x)
    show ?thesis
    proof (cases "x = 0")
      case True
      with Some show ?thesis using Cons.IH [of acc] by (simp add: add_counter_simps)
    next
      case False
      with Some show ?thesis using Cons.IH [of "Some (or_zero acc + x)"]
        by (simp add: add_counter_simps)
    qed
  qed
qed

lemma foldl_addUsage_fields:
  "completionTokens (foldl addUsage tu us) =
     foldl add_counter (completionTokens tu) (map (usage_field completion_tokens) us)"
  "promptTokens (foldl addUsage tu us) =
     foldl add_counter (promptTokens tu) (map (usage_field prompt_tokens) us)"
  "totalTokens (foldl addUsage tu us) =
     foldl add_counter (totalTokens tu) (map (usage_field total_tokens) us)"
  by (induction us arbitrary: tu) (simp_all add: addUsage_def usage_field_def Let_def)

lemma or_zero_usage_field: "or_zero (usage_field f (resp_usage r)) = reported f r"
  by (simp add: usage_field_def reported_def split: option.splits)

lemma accumulate_eq:
  "accumulate rs =
     \<lparr>completionTokens = total_of completion_tokens rs,
      promptTokens = total_of prompt_tokens rs,
      totalTokens = total_of total_tokens rs\<rparr>"
proof -
  have m: "map or_zero (map (usage_field f) (map resp_usage rs)) = map (reported f) rs" for f
    by (simp add: or_zero_usage_field)
  have s: "(\<forall>v\<in>set (map (usage_field f) (map resp_usage rs)). or_zero v = 0)
             \<longleftrightarrow> (\<forall>r\<in>set rs. reported f r = 0)" for f
    by (simp add: or_zero_usage_field)
  have "completionTokens (accumulate rs) = total_of completion_tokens rs"
    unfolding accumulate_def foldl_addUsage_fields foldl_add_counter m s
    by (simp add: total_of_def counter_sum_def list_all_iff)
  moreover have "promptTokens (accumulate rs) = total_of prompt_tokens rs"
    unfolding accumulate_def foldl_addUsage_fields foldl_add_counter m s
    by (simp add: total_of_def counter_sum_def list_all_iff)
  moreover have "totalTokens (accumulate rs) = total_of total_tokens rs"
    unfolding accumulate_def foldl_addUsage_fields foldl_add_counter m s
    by (simp add: total_of_def counter_sum_def list_all_iff)
  ultimately show ?thesis by simp
qed

lemma total_of_mset:
  assumes eq: "mset rs' = mset rs"
  shows "total_of f rs' = total_of f rs"
proof -
  from eq have "set rs' = set rs" by (rule mset_eq_setD)
  moreover have "sum_list (map (reported f) rs') = sum_list (map (reported f) rs)"
  proof -
    have "mset (map (reported f) rs') = mset (map (reported f) rs)" using eq by simp
    then show ?thesis by (metis sum_mset_sum_list)
  qed
  ultimately show ?thesis by (simp add: total_of_def counter_sum_def list_all_iff)
qed

lemma total_of_None: "total_of f rs = None \<longleftrightarrow> (\<forall>r\<in>set rs. reported f r = 0)"
  by (simp add: total_of_def list_all_iff)

lemma sum_list_all_zero: "(\<forall>r\<in>set rs. g r = 0) \<Longrightarrow> sum_list (map g rs) = (0::int)"
  by (induction rs) simp_all

lemma or_zero_total_of: "or_zero (total_of f rs) = counter_sum f rs"
  by (simp add: total_of_def counter_sum_def list_all_iff sum_list_all_zero)

lemma generate_usage:
  assumes "generate client this prompts stop c = (Inr res, c')"
  shows "tokenUsage res = accumulate (responses_of client this prompts stop c)"
    and "length (responses_of client this prompts stop c) =
           length (chunks (nat (batchSize this)) prompts)"
proof -
  from assms obtain chs where
    loop: "generate_loop client this (call_params this stop)
        (chunks (nat (batchSize this)) prompts) []
        \<lparr>completionTokens = None, promptTokens = None, totalTokens = None\<rparr> c
       = (Inr (chs, tokenUsage res), c')"
    by (rule generate_Inr)
  from generate_loop_usage [OF loop]
  show "tokenUsage res = accumulate (responses_of client this prompts stop c)"
    and "length (responses_of client this prompts stop c) =
           length (chunks (nat (batchSize this)) prompts)"
    by (simp_all add: accumulate_def responses_of_def)
qed

text \<open>
  Claim C3, as stated, fails: a batch that reports a counter as 0 leaves the aggregated
  counter absent. Here the only batch reports \<open>completion_tokens = 0\<close>, and the
  aggregated \<open>completionTokens\<close> is absent although that batch reported the counter.
\<close>

theorem token_usage_absent_counterexample:
  "map resp_usage
     (responses_of echo_client (OpenAI_default\<lparr>cfg_n := 2\<rparr>) [''a''] None 0) =
     [Some \<lparr>completion_tokens = Some 0, prompt_tokens = Some 1, total_tokens = Some 1\<rparr>] \<and>
   fst (generate echo_client (OpenAI_default\<lparr>cfg_n := 2\<rparr>) [''a''] None 0) =
     Inr \<lparr>generations = [[toGeneration (mk_choice ''a''), toGeneration (mk_choice ''a'')]],
          tokenUsage =
            \<lparr>completionTokens = None, promptTokens = Some 1, totalTokens = Some 1\<rparr>\<rparr>"
  by (simp add: responses_of_def generate_eval)

text \<open>
  Claim C3, amended. After a successful call there is one response for each batch, and
  for each of the three counters: the aggregated counter, read as 0 when absent, is the
  sum over the responses of what each reports (absent read as 0, so that a response
  never resets the total); the aggregated counter is absent exactly when every
  response reports the counter as absent or as 0; and accumulating the same responses
  in any other order gives the same aggregated usage.
\<close>

theorem generate_token_usage:
  assumes ok: "generate client this prompts stop c = (Inr res, c')"
  shows "length (responses_of client this prompts stop c) =
           length (chunks (nat (batchSize this)) prompts) \<and>
         or_zero (completionTokens (tokenUsage res)) =
           counter_sum completion_tokens (responses_of client this prompts stop c) \<and>
         or_zero (promptTokens (tokenUsage res)) =
           counter_sum prompt_tokens (responses_of client this prompts stop c) \<and>
         or_zero (totalTokens (tokenUsage res)) =
           counter_sum total_tokens (responses_of client this prompts stop c) \<and>
         (completionTokens (tokenUsage res) = None \<longleftrightarrow>
            (\<forall>r\<in>set (responses_of client this prompts stop c).
               reported completion_tokens r = 0)) \<and>
         (promptTokens (tokenUsage res) = None \<longleftrightarrow>
            (\<forall>r\<in>set (responses_of client this prompts stop c).
               reported prompt_tokens r = 0)) \<and>
         (totalTokens (tokenUsage res) = None \<longleftrightarrow>
            (\<forall>r\<in>set (responses_of client this prompts stop c).
               reported total_tokens r = 0)) \<and>
         (\<forall>rs'. mset rs' = mset (responses_of client this prompts stop c) \<longrightarrow>
            accumulate rs' = tokenUsage res)"
proof -
  let ?rs = "responses_of client this prompts stop c"
  note u = generate_usage [OF ok]
  have fields: "completionTokens (tokenUsage res) = total_of completion_tokens ?rs"
      "promptTokens (tokenUsage res) = total_of prompt_tokens ?rs"
      "totalTokens (tokenUsage res) = total_of total_tokens ?rs"
    by (simp_all add: u(1) accumulate_eq)
  have order: "\<forall>rs'. mset rs' = mset ?rs \<longrightarrow> accumulate rs' = tokenUsage res"
  proof (intro allI impI)
    fix rs' :: "response list"
    assume eq: "mset rs' = mset ?rs"
    show "accumulate rs' = tokenUsage res"
      unfolding u(1) accumulate_eq [of rs'] accumulate_eq [of ?rs]
      by (simp only: total_of_mset [OF eq])
  qed
  have sums: "or_zero (completionTokens (tokenUsage res)) = counter_sum completion_tokens ?rs"
      "or_zero (promptTokens (tokenUsage res)) = counter_sum prompt_tokens ?rs"
      "or_zero (totalTokens (tokenUsage res)) = counter_sum total_tokens ?rs"
    unfolding fields by (rule or_zero_total_of)+
  have absent: "completionTokens (tokenUsage res) = None \<longleftrightarrow>
            (\<forall>r\<in>set ?rs. reported completion_tokens r = 0)"
      "promptTokens (tokenUsage res) = None \<longleftrightarrow>
            (\<forall>r\<in>set ?rs. reported prompt_tokens r = 0)"
      "totalTokens (tokenUsage res) = None \<longleftrightarrow>
            (\<forall>r\<in>set ?rs. reported total_tokens r = 0)"
    unfolding fields by (rule total_of_None)+
  from u(2) sums absent order show ?thesis by (intro conjI)
qed

theorem generate_token_usage_witness:
  "\<exists>res c'.
     generate echo_client (OpenAI_default\<lparr>cfg_n := 2, batchSize := 2\<rparr>)
       [''a'', ''b'', ''c''] None 0 = (Inr res, c') \<and>
     length (responses_of echo_client (OpenAI_default\<lparr>cfg_n := 2, batchSize := 2\<rparr>)
       [''a'', ''b'', ''c''] None 0) = 2 \<and>
     or_zero (promptTokens (tokenUsage res)) = 3 \<and>
     completionTokens (tokenUsage res) = None \<and>
     accumulate (rev (responses_of echo_client (OpenAI_default\<lparr>cfg_n := 2, batchSize := 2\<rparr>)
       [''a'', ''b'', ''c''] None 0)) = tokenUsage res"
proof -
  let ?eng = "OpenAI_default\<lparr>cfg_n := 2, batchSize := 2\<rparr>"
  let ?res = "\<lparr>generations =
       [[toGeneration (mk_choice ''a''), toGeneration (mk_choice ''a'')],
        [toGeneration (mk_choice ''b''), toGeneration (mk_choice ''b'')],
        [toGeneration (mk_choice ''c''), toGeneration (mk_choice ''c'')]],
     tokenUsage = \<lparr>completionTokens = None, promptTokens = Some 3, totalTokens = Some 3\<rparr>\<rparr>"
  let ?rs = "responses_of echo_client ?eng [''a'', ''b'', ''c''] None 0"
  have run: "generate echo_client ?eng [''a'', ''b'', ''c''] None 0 = (Inr ?res, 2)"
    by (simp add: generate_eval)
  have rs: "?rs =
      [\<lparr>choices = twice_each [''a'', ''b''],
        resp_usage = Some \<lparr>completion_tokens = Some 0, prompt_tokens = Some 2,
                            total_tokens = Some 2\<rparr>\<rparr>,
       \<lparr>choices = twice_each [''c''],
        resp_usage = Some \<lparr>completion_tokens = Some 0, prompt_tokens = Some 1,
                            total_tokens = Some 1\<rparr>\<rparr>]"
    by (simp add: responses_of_def generate_eval)
  note t = generate_token_usage [OF run]
  from t have len: "length ?rs = length (chunks (nat (batchSize ?eng)) [''a'', ''b'', ''c''])"
    by blast
  from t have sum: "or_zero (promptTokens (tokenUsage ?res)) = counter_sum prompt_tokens ?rs"
    by blast
  from t have none: "completionTokens (tokenUsage ?res) = None \<longleftrightarrow>
            (\<forall>r\<in>set ?rs. reported completion_tokens r = 0)"
    by blast
  from t have "mset (rev ?rs) = mset ?rs \<longrightarrow> accumulate (rev ?rs) = tokenUsage ?res"
    by blast
  then have order: "accumulate (rev ?rs) = tokenUsage ?res" by simp
  from len have 1: "length ?rs = 2" by (simp add: chunks.simps OpenAI_default_def)
  from sum have 2: "or_zero (promptTokens (tokenUsage ?res)) = 3"
    by (simp add: rs counter_sum_def reported_def)
  from none have 3: "completionTokens (tokenUsage ?res) = None"
    by (simp add: rs reported_def)
  from run 1 2 3 order show ?thesis by blast
qed

end
